theory Spec2Isabelle
  imports Main "HOL-Library.Char_ord" "HOL-Library.List_Lexorder" "HOL-Library.Product_Lexorder"
begin

section \<open>Values: SQLite cells and the Python objects bound to them\<close>

text \<open>
  The catalog is an SQLite file opened with \<^verbatim>\<open>sqlite3.connect(self.db_path)\<close>, that is,
  without \<^verbatim>\<open>detect_types\<close>.  A cell is NULL, an integer or a text; a value read
  back from a row is \<^verbatim>\<open>None\<close>, an \<^verbatim>\<open>int\<close> or a \<^verbatim>\<open>str\<close>, never a
  \<^verbatim>\<open>datetime\<close>.  A \<^verbatim>\<open>datetime\<close> bound as a parameter is stored by the
  default adapter as its ISO text.  Strings are byte strings; case folding is the ASCII one.
\<close>

datatype sqlval = SNull | SInt int | SText string

record datetime =
  dt_year :: nat
  dt_month :: nat
  dt_day :: nat
  dt_hour :: nat
  dt_minute :: nat
  dt_second :: nat
  dt_microsecond :: nat

datatype pyval = PNone | PInt int | PStr string | PDatetime datetime

definition digit_char :: "nat \<Rightarrow> char" where
  "digit_char n = ''0123456789'' ! n"

fun dec :: "nat \<Rightarrow> string" where
  "dec n = (if n < 10 then [digit_char n] else dec (n div 10) @ [digit_char (n mod 10)])"

declare dec.simps [simp del]

definition dec_int :: "int \<Rightarrow> string" where
  "dec_int i = (if i < 0 then CHR ''-'' # dec (nat (- i)) else dec (nat i))"

definition pad :: "nat \<Rightarrow> string \<Rightarrow> string" where
  "pad w s = replicate (w - length s) CHR ''0'' @ s"

text \<open>\<^verbatim>\<open>datetime.isoformat(" ")\<close>, what the default adapter of sqlite3 writes.\<close>

definition isoformat :: "datetime \<Rightarrow> string" where
  "isoformat d =
     pad 4 (dec (dt_year d)) @ ''-'' @ pad 2 (dec (dt_month d)) @ ''-'' @ pad 2 (dec (dt_day d))
     @ '' '' @ pad 2 (dec (dt_hour d)) @ '':'' @ pad 2 (dec (dt_minute d)) @ '':''
     @ pad 2 (dec (dt_second d))
     @ (if dt_microsecond d = 0 then [] else ''.'' @ pad 6 (dec (dt_microsecond d)))"

fun adapt :: "pyval \<Rightarrow> sqlval" where
  "adapt PNone = SNull"
| "adapt (PInt i) = SInt i"
| "adapt (PStr s) = SText s"
| "adapt (PDatetime d) = SText (isoformat d)"

fun from_sql :: "sqlval \<Rightarrow> pyval" where
  "from_sql SNull = PNone"
| "from_sql (SInt i) = PInt i"
| "from_sql (SText s) = PStr s"

definition is_digit :: "char \<Rightarrow> bool" where
  "is_digit c = (c \<in> set ''0123456789'')"

definition digit_val :: "char \<Rightarrow> nat" where
  "digit_val c = of_char c - 48"

definition nat_of_digits :: "string \<Rightarrow> nat option" where
  "nat_of_digits s =
     (if s \<noteq> [] \<and> list_all is_digit s
      then Some (foldl (\<lambda>a c. 10 * a + digit_val c) 0 s) else None)"

text \<open>
  The integer a text operand is turned into when it is compared with a column of INTEGER
  affinity: a signed decimal literal.  (SQLite also accepts surrounding blanks and real
  literals of integral value; no path built by \<^verbatim>\<open>os.path.join\<close> has either form.)
\<close>

definition int_of_text :: "string \<Rightarrow> int option" where
  "int_of_text s =
     (case s of
        [] \<Rightarrow> None
      | c # r \<Rightarrow>
          if c = CHR ''-'' then map_option (\<lambda>n. - int n) (nat_of_digits r)
          else if c = CHR ''+'' then map_option int (nat_of_digits r)
          else map_option int (nat_of_digits s))"

section \<open>The catalog store (db\_manager.py)\<close>

text \<open>
  Table \<^verbatim>\<open>files_metadata\<close>: \<^verbatim>\<open>file_id INTEGER PRIMARY KEY AUTOINCREMENT\<close>,
  \<^verbatim>\<open>file_path TEXT NOT NULL\<close>, \<^verbatim>\<open>file_name TEXT NOT NULL\<close>, the other columns nullable.
\<close>

record file_row =
  file_id :: int
  file_path :: string
  file_name :: string
  source :: sqlval
  file_type :: sqlval
  issue_status :: sqlval
  revision :: sqlval
  department :: sqlval
  drawing_type :: sqlval
  plant_area :: sqlval
  equipment_included :: sqlval
  notes_col :: sqlval
  todos :: sqlval
  last_modified :: sqlval
  created_date :: sqlval

text \<open>Table \<^verbatim>\<open>recent_folders\<close>: \<^verbatim>\<open>folder_path TEXT NOT NULL UNIQUE\<close>.\<close>

record folder_row =
  folder_id :: int
  folder_path :: string
  last_accessed :: sqlval

text \<open>
  The database file.  \<open>files_seq\<close> and \<open>folders_seq\<close> are the AUTOINCREMENT counters
  (the largest key ever given out); \<open>current_timestamp\<close> is the text that
  \<^verbatim>\<open>CURRENT_TIMESTAMP\<close> evaluates to at the time of the call.
\<close>

record db =
  files_metadata :: "file_row list"
  files_seq :: int
  recent_folders :: "folder_row list"
  folders_seq :: int
  current_timestamp :: string

datatype sql_error = SyntaxError | NoSuchColumn string | IntegrityError | DatatypeMismatch

text \<open>The two loggers (\<^verbatim>\<open>database\<close> and \<^verbatim>\<open>app.file_scanner\<close>), as one list of records.\<close>

datatype py_exc = TypeError | OSError

datatype log_entry =
    DbError string sql_error
  | DbDebug string
  | DbInfo string
  | DbWarning string
  | FolderNotFound string
  | ProcessingError string py_exc
  | UpdatedMetadata string
  | AddedNewFile string
  | FileNoLongerExists string
  | ScanCompleted nat nat

definition columns :: "string list" where
  "columns = [''file_id'', ''file_path'', ''file_name'', ''source'', ''file_type'',
     ''issue_status'', ''revision'', ''department'', ''drawing_type'', ''plant_area'',
     ''equipment_included'', ''notes'', ''todos'', ''last_modified'', ''created_date'']"

definition col_get :: "string \<Rightarrow> file_row \<Rightarrow> sqlval option" where
  "col_get k r =
    (if k = ''file_id'' then Some (SInt (file_id r))
     else if k = ''file_path'' then Some (SText (file_path r))
     else if k = ''file_name'' then Some (SText (file_name r))
     else if k = ''source'' then Some (source r)
     else if k = ''file_type'' then Some (file_type r)
     else if k = ''issue_status'' then Some (issue_status r)
     else if k = ''revision'' then Some (revision r)
     else if k = ''department'' then Some (department r)
     else if k = ''drawing_type'' then Some (drawing_type r)
     else if k = ''plant_area'' then Some (plant_area r)
     else if k = ''equipment_included'' then Some (equipment_included r)
     else if k = ''notes'' then Some (notes_col r)
     else if k = ''todos'' then Some (todos r)
     else if k = ''last_modified'' then Some (last_modified r)
     else if k = ''created_date'' then Some (created_date r)
     else None)"

text \<open>A NOT NULL TEXT column: NULL violates the constraint, an integer is stored as text.\<close>

fun not_null_text :: "sqlval \<Rightarrow> sql_error + string" where
  "not_null_text SNull = Inl IntegrityError"
| "not_null_text (SInt i) = Inr (dec_int i)"
| "not_null_text (SText s) = Inr s"

text \<open>One assignment \<^verbatim>\<open>k = ?\<close> on one row.\<close>

definition col_set :: "string \<Rightarrow> sqlval \<Rightarrow> file_row \<Rightarrow> sql_error + file_row" where
  "col_set k v r =
    (if k = ''file_id'' then
       (case v of SInt i \<Rightarrow> Inr (r\<lparr>file_id := i\<rparr>) | _ \<Rightarrow> Inl DatatypeMismatch)
     else if k = ''file_path'' then
       (case not_null_text v of Inl e \<Rightarrow> Inl e | Inr s \<Rightarrow> Inr (r\<lparr>file_path := s\<rparr>))
     else if k = ''file_name'' then
       (case not_null_text v of Inl e \<Rightarrow> Inl e | Inr s \<Rightarrow> Inr (r\<lparr>file_name := s\<rparr>))
     else if k = ''source'' then Inr (r\<lparr>source := v\<rparr>)
     else if k = ''file_type'' then Inr (r\<lparr>file_type := v\<rparr>)
     else if k = ''issue_status'' then Inr (r\<lparr>issue_status := v\<rparr>)
     else if k = ''revision'' then Inr (r\<lparr>revision := v\<rparr>)
     else if k = ''department'' then Inr (r\<lparr>department := v\<rparr>)
     else if k = ''drawing_type'' then Inr (r\<lparr>drawing_type := v\<rparr>)
     else if k = ''plant_area'' then Inr (r\<lparr>plant_area := v\<rparr>)
     else if k = ''equipment_included'' then Inr (r\<lparr>equipment_included := v\<rparr>)
     else if k = ''notes'' then Inr (r\<lparr>notes_col := v\<rparr>)
     else if k = ''todos'' then Inr (r\<lparr>todos := v\<rparr>)
     else if k = ''last_modified'' then Inr (r\<lparr>last_modified := v\<rparr>)
     else if k = ''created_date'' then Inr (r\<lparr>created_date := v\<rparr>)
     else Inl (NoSuchColumn k))"

text \<open>The assignments of a SET clause (or the columns of an INSERT), left to right.\<close>

fun set_cols :: "(string \<times> pyval) list \<Rightarrow> file_row \<Rightarrow> sql_error + file_row" where
  "set_cols [] r = Inr r"
| "set_cols ((k, v) # kvs) r =
     (case col_set k (adapt v) r of Inl e \<Rightarrow> Inl e | Inr r' \<Rightarrow> set_cols kvs r')"

text \<open>Preparing a statement fails on the first name that is not a column.\<close>

fun check_columns :: "string list \<Rightarrow> sql_error option" where
  "check_columns [] = None"
| "check_columns (k # ks) = (if k \<in> set columns then check_columns ks else Some (NoSuchColumn k))"

text \<open>
  \<^verbatim>\<open>UPDATE files_metadata SET k1 = ?, ... WHERE <cond>\<close>.  An empty SET clause is a
  syntax error.  The statement is atomic: on an error no row changes.  A statement that
  assigns the primary key fails when two rows would share it.  The result carries
  \<^verbatim>\<open>cursor.rowcount\<close>, the number of rows the WHERE clause selected.
\<close>

fun update_rows :: "(file_row \<Rightarrow> bool) \<Rightarrow> (string \<times> pyval) list \<Rightarrow> file_row list
    \<Rightarrow> sql_error + file_row list" where
  "update_rows cond kvs [] = Inr []"
| "update_rows cond kvs (r # rs) =
     (if cond r then
        (case set_cols kvs r of
           Inl e \<Rightarrow> Inl e
         | Inr r' \<Rightarrow> (case update_rows cond kvs rs of Inl e \<Rightarrow> Inl e | Inr rs' \<Rightarrow> Inr (r' # rs')))
      else (case update_rows cond kvs rs of Inl e \<Rightarrow> Inl e | Inr rs' \<Rightarrow> Inr (r # rs')))"

definition sql_update :: "(file_row \<Rightarrow> bool) \<Rightarrow> (string \<times> pyval) list \<Rightarrow> db
    \<Rightarrow> sql_error + (nat \<times> db)" where
  "sql_update cond kvs d =
     (if kvs = [] then Inl SyntaxError
      else case check_columns (map fst kvs) of
        Some e \<Rightarrow> Inl e
      | None \<Rightarrow>
         (case update_rows cond kvs (files_metadata d) of
            Inl e \<Rightarrow> Inl e
          | Inr rows \<Rightarrow>
              if ''file_id'' \<in> set (map fst kvs) \<and> \<not> distinct (map file_id rows)
              then Inl IntegrityError
              else Inr (length (filter cond (files_metadata d)), d\<lparr>files_metadata := rows\<rparr>)))"

text \<open>
  \<^verbatim>\<open>WHERE file_id = ?\<close>: the column has INTEGER affinity, so a text operand is compared
  as the integer it spells, if it spells one; NULL equals nothing.
\<close>

fun id_matches :: "pyval \<Rightarrow> file_row \<Rightarrow> bool" where
  "id_matches (PInt i) r = (file_id r = i)"
| "id_matches (PStr s) r = (case int_of_text s of Some i \<Rightarrow> file_id r = i | None \<Rightarrow> False)"
| "id_matches PNone r = False"
| "id_matches (PDatetime t) r =
     (case int_of_text (isoformat t) of Some i \<Rightarrow> file_id r = i | None \<Rightarrow> False)"

text \<open>
  \<^verbatim>\<open>update_file_metadata(file_id, metadata)\<close>: returns True once the statement has run,
  False when sqlite3 raised.  The metadata dictionary is its list of items, in order.
\<close>

definition update_file_metadata :: "pyval \<Rightarrow> (string \<times> pyval) list \<Rightarrow> db
    \<Rightarrow> bool \<times> db \<times> log_entry list" where
  "update_file_metadata ident metadata d =
     (case sql_update (id_matches ident) metadata d of
        Inr (n, d') \<Rightarrow> (True, d', [])
      | Inl e \<Rightarrow> (False, d, [DbError ''Error updating file metadata'' e]))"

text \<open>
  \<^verbatim>\<open>update_file_metadata_by_path(file_path, metadata)\<close>: returns whether
  \<^verbatim>\<open>cursor.rowcount > 0\<close>.
\<close>

definition update_file_metadata_by_path :: "string \<Rightarrow> (string \<times> pyval) list \<Rightarrow> db
    \<Rightarrow> bool \<times> db \<times> log_entry list" where
  "update_file_metadata_by_path path metadata d =
     (case sql_update (\<lambda>r. file_path r = path) metadata d of
        Inr (n, d') \<Rightarrow>
          if n > 0
          then (True, d', [DbDebug ''Executing update query'',
                          DbInfo (''Successfully updated metadata for '' @ path)])
          else (False, d', [DbDebug ''Executing update query'',
                           DbWarning (''No rows updated for '' @ path)])
      | Inl e \<Rightarrow> (False, d, [DbDebug ''Executing update query'',
                            DbError (''Database error updating metadata for '' @ path) e]))"

text \<open>
  \<^verbatim>\<open>INSERT INTO files_metadata (k1, ...) VALUES (?, ...)\<close>.  The key is the next
  AUTOINCREMENT value unless the statement gives one; \<^verbatim>\<open>created_date\<close> defaults to
  \<^verbatim>\<open>CURRENT_TIMESTAMP\<close>; the two NOT NULL columns have no default.  The result
  carries \<^verbatim>\<open>cursor.lastrowid\<close>.
\<close>

definition next_id :: "int \<Rightarrow> int list \<Rightarrow> int" where
  "next_id seq ids = foldr max ids seq + 1"

definition default_row :: "db \<Rightarrow> file_row" where
  "default_row d =
     \<lparr>file_id = next_id (files_seq d) (map file_id (files_metadata d)),
      file_path = [], file_name = [], source = SNull, file_type = SNull,
      issue_status = SNull, revision = SNull, department = SNull, drawing_type = SNull,
      plant_area = SNull, equipment_included = SNull, notes_col = SNull, todos = SNull,
      last_modified = SNull, created_date = SText (current_timestamp d)\<rparr>"

definition sql_insert :: "(string \<times> pyval) list \<Rightarrow> db \<Rightarrow> sql_error + (int \<times> db)" where
  "sql_insert kvs d =
     (if kvs = [] then Inl SyntaxError
      else case check_columns (map fst kvs) of
        Some e \<Rightarrow> Inl e
      | None \<Rightarrow>
         if ''file_path'' \<notin> set (map fst kvs) \<or> ''file_name'' \<notin> set (map fst kvs)
         then Inl IntegrityError
         else
          (case set_cols kvs (default_row d) of
             Inl e \<Rightarrow> Inl e
           | Inr r \<Rightarrow>
               if file_id r \<in> set (map file_id (files_metadata d)) then Inl IntegrityError
               else Inr (file_id r,
                         d\<lparr>files_metadata := files_metadata d @ [r],
                           files_seq := max (files_seq d) (file_id r)\<rparr>)))"

text \<open>\<^verbatim>\<open>add_file_metadata(metadata)\<close>: the new key, or None when sqlite3 raised.\<close>

definition add_file_metadata :: "(string \<times> pyval) list \<Rightarrow> db
    \<Rightarrow> int option \<times> db \<times> log_entry list" where
  "add_file_metadata metadata d =
     (case sql_insert metadata d of
        Inr (rid, d') \<Rightarrow> (Some rid, d', [])
      | Inl e \<Rightarrow> (None, d, [DbError ''Error adding file metadata'' e]))"

subsection \<open>Search\<close>

definition lower_char :: "char \<Rightarrow> char" where
  "lower_char c =
     (case map_of (zip ''ABCDEFGHIJKLMNOPQRSTUVWXYZ'' ''abcdefghijklmnopqrstuvwxyz'') c of
        Some l \<Rightarrow> l
      | None \<Rightarrow> c)"

definition lower :: "string \<Rightarrow> string" where
  "lower s = map lower_char s"

text \<open>
  The LIKE operator of SQLite on a pattern and a text: \<^verbatim>\<open>%\<close> stands for any run of
  characters, \<^verbatim>\<open>_\<close> for any one character, every other character for itself up to
  ASCII case.  There is no escape character.
\<close>

fun like_match :: "string \<Rightarrow> string \<Rightarrow> bool" where
  "like_match [] [] = True"
| "like_match [] (c # cs) = False"
| "like_match (p # ps) [] = (p = CHR ''%'' \<and> like_match ps [])"
| "like_match (p # ps) (c # cs) =
     (if p = CHR ''%'' then like_match ps (c # cs) \<or> like_match (p # ps) cs
      else (p = CHR ''_'' \<or> lower_char p = lower_char c) \<and> like_match ps cs)"

text \<open>The SQL function \<^verbatim>\<open>lower\<close>: NULL stays NULL, an integer is rendered as text.\<close>

fun sql_lower :: "sqlval \<Rightarrow> sqlval" where
  "sql_lower SNull = SNull"
| "sql_lower (SInt i) = SText (lower (dec_int i))"
| "sql_lower (SText s) = SText (lower s)"

text \<open>\<^verbatim>\<open>X LIKE Y\<close> with the three truth values of SQL: None is NULL.\<close>

fun sql_text :: "sqlval \<Rightarrow> string option" where
  "sql_text SNull = None"
| "sql_text (SInt i) = Some (dec_int i)"
| "sql_text (SText s) = Some s"

definition sql_like :: "sqlval \<Rightarrow> sqlval \<Rightarrow> bool option" where
  "sql_like x y =
     (case (sql_text x, sql_text y) of
        (Some s, Some p) \<Rightarrow> Some (like_match p s)
      | _ \<Rightarrow> None)"

definition sql_eq :: "sqlval \<Rightarrow> sqlval \<Rightarrow> bool option" where
  "sql_eq x y = (if x = SNull \<or> y = SNull then None else Some (x = y))"

text \<open>
  One condition of the WHERE clause, with the value bound to its placeholder:
  \<^verbatim>\<open>date(k) = date(?)\<close> or \<^verbatim>\<open>lower(k) LIKE lower(?)\<close>.
\<close>

datatype where_clause = DateEq string string | LowerLike string string

fun clause_column :: "where_clause \<Rightarrow> string" where
  "clause_column (DateEq k v) = k"
| "clause_column (LowerLike k v) = k"

text \<open>
  The loop of \<^verbatim>\<open>search_files\<close> over \<^verbatim>\<open>criteria.items()\<close>: a falsy value is
  skipped, a date field with the placeholder text is skipped, a date field gives a date
  comparison and any other key a LIKE on \<^verbatim>\<open>%value%\<close>.
\<close>

fun build_where :: "(string \<times> string) list \<Rightarrow> where_clause list" where
  "build_where [] = []"
| "build_where ((key, v) # rest) =
     (if v = [] then build_where rest
      else if key \<in> {''last_modified'', ''created_date''} then
        (if v = ''YYYY-MM-DD'' then build_where rest
         else DateEq key v # build_where rest)
      else LowerLike key (''%'' @ v @ ''%'') # build_where rest)"

text \<open>
  The SQL function \<^verbatim>\<open>date\<close> belongs to SQLite, not to this repository: it is the
  parameter \<open>date_fn\<close> of the search.
\<close>

fun eval_clause :: "(sqlval \<Rightarrow> sqlval) \<Rightarrow> file_row \<Rightarrow> where_clause \<Rightarrow> bool option" where
  "eval_clause date_fn r (DateEq k v) =
     (case col_get k r of
        None \<Rightarrow> None
      | Some c \<Rightarrow> sql_eq (date_fn c) (date_fn (SText v)))"
| "eval_clause date_fn r (LowerLike k v) =
     (case col_get k r of
        None \<Rightarrow> None
      | Some c \<Rightarrow> sql_like (sql_lower c) (sql_lower (SText v)))"

text \<open>
  The order of SQLite on cells: NULL, then integers by value, then texts byte by byte.
\<close>

fun sql_key :: "sqlval \<Rightarrow> nat \<times> int \<times> string" where
  "sql_key SNull = (0, 0, [])"
| "sql_key (SInt i) = (1, i, [])"
| "sql_key (SText s) = (2, 0, s)"

text \<open>\<^verbatim>\<open>ORDER BY last_modified DESC\<close>; rows with equal keys stay in table order.\<close>

definition order_by_last_modified_desc :: "file_row list \<Rightarrow> file_row list" where
  "order_by_last_modified_desc rows =
     rev (sort_key (\<lambda>r. sql_key (last_modified r)) (rev rows))"

definition search_files :: "(sqlval \<Rightarrow> sqlval) \<Rightarrow> (string \<times> string) list \<Rightarrow> db
    \<Rightarrow> file_row list \<times> log_entry list" where
  "search_files date_fn criteria d =
     (let where_clauses = build_where criteria in
      case check_columns (map clause_column where_clauses) of
        Some e \<Rightarrow> ([], [DbDebug ''Executing search query'',
                        DbError ''Database error in search_files'' e])
      | None \<Rightarrow>
          (let results = order_by_last_modified_desc
                 (filter (\<lambda>r. list_all (\<lambda>c. eval_clause date_fn r c = Some True) where_clauses)
                    (files_metadata d))
           in (results, [DbDebug ''Executing search query'', DbInfo ''Search returned results''])))"

section \<open>The file system seen by the scanner\<close>

text \<open>
  What \<^verbatim>\<open>os.stat\<close> gives for a file: its modification and status-change times, already
  as the \<^verbatim>\<open>datetime\<close> objects \<^verbatim>\<open>datetime.fromtimestamp\<close> makes of them, or None when
  the call raises \<^verbatim>\<open>OSError\<close> (file removed meanwhile, permission denied).
  A directory lists its files and its subdirectories, in the order of \<^verbatim>\<open>os.walk\<close>.
\<close>

type_synonym stat_result = "(datetime \<times> datetime) option"

datatype tree = Dir "(string \<times> stat_result) list" "(string \<times> tree) list"

datatype fs_node = Missing | RegularFile | Directory tree

text \<open>\<^verbatim>\<open>os.path.join(a, b)\<close>, \<^verbatim>\<open>os.path.basename\<close> and the extension of
  \<^verbatim>\<open>os.path.splitext\<close>, as \<^verbatim>\<open>posixpath\<close> defines them.\<close>

definition path_join :: "string \<Rightarrow> string \<Rightarrow> string" where
  "path_join a b =
     (if b \<noteq> [] \<and> hd b = CHR ''/'' then b
      else if a = [] \<or> last a = CHR ''/'' then a @ b
      else a @ ''/'' @ b)"

definition basename :: "string \<Rightarrow> string" where
  "basename p = rev (takeWhile (\<lambda>c. c \<noteq> CHR ''/'') (rev p))"

definition splitext_ext :: "string \<Rightarrow> string" where
  "splitext_ext name =
     (let suffix = rev (takeWhile (\<lambda>c. c \<noteq> CHR ''.'') (rev name));
          stem = take (length name - length suffix - 1) name
      in if CHR ''.'' \<notin> set name \<or> list_all (\<lambda>c. c = CHR ''.'') stem then []
         else CHR ''.'' # suffix)"

text \<open>\<^verbatim>\<open>os.walk(top)\<close>, top down: the pairs of a directory path and its files.\<close>

fun walk :: "string \<Rightarrow> tree \<Rightarrow> (string \<times> (string \<times> stat_result) list) list"
  and walk_dirs :: "string \<Rightarrow> (string \<times> tree) list \<Rightarrow> (string \<times> (string \<times> stat_result) list) list"
where
  "walk root (Dir files dirs) = (root, files) # walk_dirs root dirs"
| "walk_dirs root [] = []"
| "walk_dirs root ((name, t) # rest) = walk (path_join root name) t @ walk_dirs root rest"

text \<open>The two nested iterations of the scan: every \<^verbatim>\<open>os.path.join(root, filename)\<close>, in order,
  with what \<^verbatim>\<open>os.stat\<close> will answer for it.\<close>

definition discovered :: "string \<Rightarrow> fs_node \<Rightarrow> (string \<times> stat_result) list" where
  "discovered folder node =
     (case node of
        Directory t \<Rightarrow>
          concat (map (\<lambda>(root, files). map (\<lambda>(filename, st). (path_join root filename, st)) files)
                    (walk folder t))
      | _ \<Rightarrow> [])"

section \<open>The folder scanner (file\_scanner.py)\<close>

definition FILE_TYPES :: "(string \<times> string) list" where
  "FILE_TYPES = [(''.pdf'', ''PDF''), (''.dwg'', ''DWG''), (''.doc'', ''DOC''),
     (''.docx'', ''DOC''), (''.xls'', ''XLS''), (''.xlsx'', ''XLS''), (''.txt'', ''TXT''),
     (''.csv'', ''CSV''), (''.zip'', ''ZIP''), (''.rar'', ''RAR'')]"

text \<open>
  \<^verbatim>\<open>_extract_metadata\<close> once \<^verbatim>\<open>os.stat\<close> has answered; \<^verbatim>\<open>Path(file_path).drive\<close> is
  empty on a POSIX path, so the source is \<^verbatim>\<open>local\<close>.
\<close>

definition extract_metadata :: "string \<Rightarrow> datetime \<Rightarrow> datetime \<Rightarrow> (string \<times> pyval) list" where
  "extract_metadata path mtime ctime =
     (let name = basename path;
          extension = lower (splitext_ext name)
      in [(''file_path'', PStr path),
          (''file_name'', PStr name),
          (''source'', PStr ''local''),
          (''file_type'', PStr (case map_of FILE_TYPES extension of Some t \<Rightarrow> t | None \<Rightarrow> ''OTHER'')),
          (''last_modified'', PDatetime mtime),
          (''created_date'', PDatetime ctime)])"

text \<open>A Python dictionary as the list of its items: a key set again keeps its place.\<close>

fun dict_set :: "'k \<Rightarrow> 'v \<Rightarrow> ('k \<times> 'v) list \<Rightarrow> ('k \<times> 'v) list" where
  "dict_set k v [] = [(k, v)]"
| "dict_set k v ((k', v') # rest) =
     (if k = k' then (k, v) # rest else (k', v') # dict_set k v rest)"

text \<open>
  \<^verbatim>\<open>_get_existing_files\<close>: the search on \<^verbatim>\<open>{'file_path': folder_path}\<close>, then the
  dictionary from \<^verbatim>\<open>r['file_path']\<close> to \<^verbatim>\<open>r['last_modified']\<close>, the values as sqlite3
  hands them over.
\<close>

definition get_existing_files :: "(sqlval \<Rightarrow> sqlval) \<Rightarrow> string \<Rightarrow> db
    \<Rightarrow> (string \<times> pyval) list \<times> log_entry list" where
  "get_existing_files date_fn folder d =
     (case search_files date_fn [(''file_path'', folder)] d of
        (results, lg) \<Rightarrow>
          (foldl (\<lambda>acc r. dict_set (file_path r) (from_sql (last_modified r)) acc) [] results, lg))"

text \<open>
  \<^verbatim>\<open>metadata['last_modified'] > existing_files[file_path]\<close>: the left operand is a
  \<^verbatim>\<open>datetime\<close>; Python compares it with another \<^verbatim>\<open>datetime\<close> field by field and raises
  \<^verbatim>\<open>TypeError\<close> for any other operand.
\<close>

definition datetime_key :: "datetime \<Rightarrow> nat \<times> nat \<times> nat \<times> nat \<times> nat \<times> nat \<times> nat" where
  "datetime_key t = (dt_year t, dt_month t, dt_day t, dt_hour t, dt_minute t, dt_second t,
     dt_microsecond t)"

fun datetime_gt :: "datetime \<Rightarrow> pyval \<Rightarrow> py_exc + bool" where
  "datetime_gt a (PDatetime b) = Inr (datetime_key a > datetime_key b)"
| "datetime_gt a PNone = Inl TypeError"
| "datetime_gt a (PInt i) = Inl TypeError"
| "datetime_gt a (PStr s) = Inl TypeError"

text \<open>A snapshot none of whose values is a \<^verbatim>\<open>datetime\<close> object.\<close>

definition no_datetime :: "(string \<times> pyval) list \<Rightarrow> bool" where
  "no_datetime ex = (\<forall>p v t. (p, v) \<in> set ex \<longrightarrow> v \<noteq> PDatetime t)"

text \<open>The state the loop carries: the database, the processed set and the log.\<close>

type_synonym scan_state = "db \<times> string list \<times> log_entry list"

text \<open>
  The body of the inner loop for one discovered path.  Whatever is raised inside the
  \<^verbatim>\<open>try\<close> is logged and the loop goes on with the next file, before
  \<^verbatim>\<open>processed_files.add(file_path)\<close> is reached.
\<close>

definition process_file :: "(string \<times> pyval) list \<Rightarrow> string \<times> stat_result \<Rightarrow> scan_state
    \<Rightarrow> scan_state" where
  "process_file existing_files item st =
     (case (item, st) of ((path, stat), (d, processed_files, lg)) \<Rightarrow>
       (case stat of
          None \<Rightarrow> (d, processed_files, lg @ [ProcessingError path OSError])
        | Some (mtime, ctime) \<Rightarrow>
           (let metadata = extract_metadata path mtime ctime in
            case map_of existing_files path of
              Some stored \<Rightarrow>
                (case datetime_gt mtime stored of
                   Inl e \<Rightarrow> (d, processed_files, lg @ [ProcessingError path e])
                 | Inr True \<Rightarrow>
                     (case update_file_metadata (PStr path) metadata d of
                        (ok, d', lg') \<Rightarrow>
                          (d', List.insert path processed_files,
                           lg @ lg' @ [UpdatedMetadata path]))
                 | Inr False \<Rightarrow> (d, List.insert path processed_files, lg))
            | None \<Rightarrow>
                (case add_file_metadata metadata d of
                   (rid, d', lg') \<Rightarrow>
                     (d', List.insert path processed_files,
                      lg @ lg' @ [AddedNewFile path])))))"

fun scan_loop :: "(string \<times> pyval) list \<Rightarrow> (string \<times> stat_result) list \<Rightarrow> scan_state
    \<Rightarrow> scan_state" where
  "scan_loop existing_files [] st = st"
| "scan_loop existing_files (item # items) st =
     scan_loop existing_files items (process_file existing_files item st)"

text \<open>\<^verbatim>\<open>set(existing_files.keys()) - processed_files\<close>.\<close>

definition removed_files :: "(string \<times> pyval) list \<Rightarrow> string list \<Rightarrow> string list" where
  "removed_files existing_files processed_files =
     filter (\<lambda>p. p \<notin> set processed_files) (map fst existing_files)"

text \<open>
  \<^verbatim>\<open>scan_folder(folder_path)\<close>: the returned flag, the database after the call and what
  was logged.
\<close>

definition scan_folder :: "(sqlval \<Rightarrow> sqlval) \<Rightarrow> (string \<Rightarrow> fs_node) \<Rightarrow> db \<Rightarrow> string
    \<Rightarrow> bool \<times> db \<times> log_entry list" where
  "scan_folder date_fn fs d folder =
     (if fs folder = Missing then (False, d, [FolderNotFound folder])
      else
        (case get_existing_files date_fn folder d of
           (existing_files, lg0) \<Rightarrow>
             (case scan_loop existing_files (discovered folder (fs folder)) (d, [], lg0) of
                (d', processed_files, lg) \<Rightarrow>
                  (let removed = removed_files existing_files processed_files
                   in (True, d',
                       lg @ map FileNoLongerExists removed
                          @ [ScanCompleted (length processed_files) (length removed)])))))"

section \<open>Recent folders (db\_manager.py)\<close>

text \<open>\<^verbatim>\<open>ORDER BY last_accessed DESC\<close>; rows with equal keys stay in table order.\<close>

definition order_by_last_accessed_desc :: "folder_row list \<Rightarrow> folder_row list" where
  "order_by_last_accessed_desc rows =
     rev (sort_key (\<lambda>r. sql_key (last_accessed r)) (rev rows))"





section \<open>Revision parsing (sql\_server.py)\<close>

text \<open>
  The regular expressions of \<^verbatim>\<open>parse_revision\<close> and the backtracking matcher of
  \<^verbatim>\<open>re\<close> on them.  \<open>rmatch r s\<close> lists what can remain of \<open>s\<close> after a match of
  \<open>r\<close> at its start, in the order in which the matcher tries: the quantifiers are greedy.
\<close>

datatype regex =
    Lit string
  | Cls "char list"
  | Seq regex regex
  | Opt regex
  | Star regex

definition Many1 :: "regex \<Rightarrow> regex" where
  "Many1 r = Seq r (Star r)"

function rmatch :: "regex \<Rightarrow> string \<Rightarrow> string list" where
  "rmatch (Lit l) s = (if take (length l) s = l then [drop (length l) s] else [])"
| "rmatch (Cls cs) s = (case s of [] \<Rightarrow> [] | c # rest \<Rightarrow> if c \<in> set cs then [rest] else [])"
| "rmatch (Seq a b) s = concat (map (\<lambda>rest. rmatch b rest) (rmatch a s))"
| "rmatch (Opt a) s = rmatch a s @ [s]"
| "rmatch (Star a) s =
     concat (map (\<lambda>rest. if length rest < length s then rmatch (Star a) rest else [])
               (rmatch a s)) @ [s]"
  by pat_completeness auto
termination
  by (relation "measures [\<lambda>(r, s). size r, \<lambda>(r, s). length s]") auto

text \<open>
  A pattern of the form \<^verbatim>\<open>prefix(group)\<close> at the start of \<open>s\<close>: the text of group 1
  on the first path on which the matcher succeeds.
\<close>

definition match_at :: "regex \<Rightarrow> regex \<Rightarrow> string \<Rightarrow> string option" where
  "match_at pre grp s =
     (case concat (map (\<lambda>r1. map (\<lambda>r2. take (length r1 - length r2) r1) (rmatch grp r1))
                    (rmatch pre s)) of
        [] \<Rightarrow> None
      | g # _ \<Rightarrow> Some g)"

text \<open>\<^verbatim>\<open>re.search\<close>: the leftmost position at which the pattern matches.\<close>

fun re_search :: "regex \<Rightarrow> regex \<Rightarrow> string \<Rightarrow> string option" where
  "re_search pre grp [] = match_at pre grp []"
| "re_search pre grp (c # cs) =
     (case match_at pre grp (c # cs) of
        Some g \<Rightarrow> Some g
      | None \<Rightarrow> re_search pre grp cs)"

definition digit_class :: "char list" where
  "digit_class = ''0123456789''"

definition alnum_class :: "char list" where
  "alnum_class = ''ABCDEFGHIJKLMNOPQRSTUVWXYZ0123456789''"

definition space_class :: "char list" where
  "space_class = [CHR '' '', CHR 0x09, CHR 0x0A, CHR 0x0B, CHR 0x0C, CHR 0x0D,
     CHR 0x1C, CHR 0x1D, CHR 0x1E, CHR 0x1F]"

text \<open>
  \<^verbatim>\<open>REV\s*([A-Z0-9]+)\<close>, \<^verbatim>\<open>R(\d+)\<close> and \<^verbatim>\<open>V(\d+(\.\d+)?)\<close>, each as its prefix
  and its first group.
\<close>

definition patterns :: "(regex \<times> regex) list" where
  "patterns =
     [(Seq (Lit ''REV'') (Star (Cls space_class)), Many1 (Cls alnum_class)),
      (Lit ''R'', Many1 (Cls digit_class)),
      (Lit ''V'', Seq (Many1 (Cls digit_class)) (Opt (Seq (Lit ''.'') (Many1 (Cls digit_class)))))]"

definition upper_char :: "char \<Rightarrow> char" where
  "upper_char c =
     (case map_of (zip ''abcdefghijklmnopqrstuvwxyz'' ''ABCDEFGHIJKLMNOPQRSTUVWXYZ'') c of
        Some u \<Rightarrow> u
      | None \<Rightarrow> c)"

definition upper :: "string \<Rightarrow> string" where
  "upper s = map upper_char s"

text \<open>The loop over the patterns: the first one that matches decides.\<close>

fun first_match :: "(regex \<times> regex) list \<Rightarrow> string \<Rightarrow> string option" where
  "first_match [] s = None"
| "first_match ((pre, grp) # rest) s =
     (case re_search pre grp s of
        Some g \<Rightarrow> Some g
      | None \<Rightarrow> first_match rest s)"

definition parse_revision :: "string \<Rightarrow> string option" where
  "parse_revision filename = first_match patterns (upper filename)"

section \<open>Well-formed directory listings and concrete inputs\<close>

text \<open>
  A directory entry is a name relative to its directory: it does not begin with a slash
  (on a real file system it contains none).
\<close>

definition relative_name :: "string \<Rightarrow> bool" where
  "relative_name n = (case n of [] \<Rightarrow> True | c # _ \<Rightarrow> c \<noteq> CHR ''/'')"

fun names_ok :: "tree \<Rightarrow> bool"
  and dirs_ok :: "(string \<times> tree) list \<Rightarrow> bool"
where
  "names_ok (Dir files dirs) = (list_all (\<lambda>f. relative_name (fst f)) files \<and> dirs_ok dirs)"
| "dirs_ok [] = True"
| "dirs_ok ((name, t) # rest) = (relative_name name \<and> names_ok t \<and> dirs_ok rest)"

fun node_ok :: "fs_node \<Rightarrow> bool" where
  "node_ok (Directory t) = names_ok t"
| "node_ok RegularFile = True"
| "node_ok Missing = True"

definition empty_db :: db where
  "empty_db = \<lparr>files_metadata = [], files_seq = 0, recent_folders = [], folders_seq = 0,
     current_timestamp = ''2026-01-01 00:00:00''\<rparr>"

definition old_time :: datetime where
  "old_time = \<lparr>dt_year = 2024, dt_month = 1, dt_day = 2, dt_hour = 3, dt_minute = 4,
     dt_second = 5, dt_microsecond = 0\<rparr>"

definition new_time :: datetime where
  "new_time = \<lparr>dt_year = 2025, dt_month = 6, dt_day = 7, dt_hour = 8, dt_minute = 9,
     dt_second = 10, dt_microsecond = 0\<rparr>"

text \<open>The row a first scan of \<^verbatim>\<open>/d\<close> stores for \<^verbatim>\<open>/d/a.pdf\<close>, modified at \<open>old_time\<close>.\<close>

definition tracked_row :: file_row where
  "tracked_row = \<lparr>file_id = 1, file_path = ''/d/a.pdf'', file_name = ''a.pdf'',
     source = SText ''local'', file_type = SText ''PDF'', issue_status = SNull,
     revision = SNull, department = SNull, drawing_type = SNull, plant_area = SNull,
     equipment_included = SNull, notes_col = SNull, todos = SNull,
     last_modified = SText ''2024-01-02 03:04:05'',
     created_date = SText ''2024-01-02 03:04:05''\<rparr>"

definition tracked_db :: db where
  "tracked_db = empty_db\<lparr>files_metadata := [tracked_row], files_seq := 1\<rparr>"

text \<open>A disk on which \<^verbatim>\<open>/d\<close> is a directory with the one file \<^verbatim>\<open>a.pdf\<close>.\<close>

definition one_file_fs :: "stat_result \<Rightarrow> string \<Rightarrow> fs_node" where
  "one_file_fs st p = (if p = ''/d'' then Directory (Dir [(''a.pdf'', st)] []) else Missing)"

text \<open>A disk on which \<^verbatim>\<open>/d\<close> is an empty directory.\<close>

definition empty_dir_fs :: "string \<Rightarrow> fs_node" where
  "empty_dir_fs p = (if p = ''/d'' then Directory (Dir [] []) else Missing)"


section \<open>The search as the specification words it\<close>









section \<open>Properties of the store\<close>

text \<open>
  C10.  An update with an empty fields mapping, by surrogate key or by file path, raises
  nothing to its caller: the statement has an empty SET clause, sqlite3 refuses it, the
  store catches the error, returns False and leaves the database as it was.
\<close>

theorem empty_update_fails_cleanly:
  "fst (update_file_metadata ident [] d) = False
   \<and> fst (snd (update_file_metadata ident [] d)) = d
   \<and> fst (update_file_metadata_by_path path [] d) = False
   \<and> fst (snd (update_file_metadata_by_path path [] d)) = d"
  by (simp add: update_file_metadata_def update_file_metadata_by_path_def sql_update_def)

text \<open>
  C7, at the input where the code departs from it.  The update by surrogate key returns
  True although no row has the key 999 (the catalog is empty): it never looks at the
  number of rows the statement touched.
\<close>

theorem update_by_id_true_without_match:
  "update_file_metadata (PInt 999) [(''notes'', PStr ''x'')] empty_db = (True, empty_db, [])
   \<and> filter (id_matches (PInt 999)) (files_metadata empty_db) = []"
  by code_simp

text \<open>The update by path on the same input does report that nothing matched.\<close>

lemma update_by_path_false_without_match:
  "fst (update_file_metadata_by_path ''/d/a.pdf'' [(''notes'', PStr ''x'')] empty_db) = False"
  by code_simp

subsection \<open>Recent folders\<close>




lemma order_desc_distinct_paths:
  "distinct (map folder_path rows) \<Longrightarrow> distinct (map folder_path (order_by_last_accessed_desc rows))"
  by (simp add: distinct_map order_by_last_accessed_desc_def)













section \<open>The snapshot and the scan loop\<close>

subsection \<open>Dictionaries\<close>

lemma dict_set_keys: "fst ` set (dict_set k v kvs) = insert k (fst ` set kvs)"
  by (induction kvs) (force split: if_splits)+

lemma dict_set_entries: "set (dict_set k v kvs) \<subseteq> insert (k, v) (set kvs)"
  by (induction kvs) (auto split: if_splits)

lemma snapshot_keys:
  "fst ` set (foldl (\<lambda>acc r. dict_set (f r) (g r) acc) acc rs) = fst ` set acc \<union> f ` set rs"
  by (induction rs arbitrary: acc) (auto simp: dict_set_keys)

lemma snapshot_entries:
  "set (foldl (\<lambda>acc r. dict_set (f r) (g r) acc) acc rs)
     \<subseteq> set acc \<union> (\<lambda>r. (f r, g r)) ` set rs"
proof (induction rs arbitrary: acc)
  case Nil
  then show ?case by simp
next
  case (Cons r rs)
  have "set (foldl (\<lambda>acc r. dict_set (f r) (g r) acc) (dict_set (f r) (g r) acc) rs)
        \<subseteq> set (dict_set (f r) (g r) acc) \<union> (\<lambda>r. (f r, g r)) ` set rs"
    by (rule Cons.IH)
  also have "\<dots> \<subseteq> insert (f r, g r) (set acc) \<union> (\<lambda>r. (f r, g r)) ` set rs"
    using dict_set_entries [of "f r" "g r" acc] by blast
  finally show ?case by auto
qed

subsection \<open>The LIKE operator\<close>

lemma like_percent_skip: "like_match ps s \<Longrightarrow> like_match (CHR ''%'' # ps) s"
  by (cases s) auto

lemma like_percent_all: "like_match ''%'' s"
  by (induction s) auto

lemma like_self_prefix: "like_match ps s \<Longrightarrow> like_match (q @ ps) (q @ s)"
proof (induction q)
  case Nil
  then show ?case by simp
next
  case (Cons c q)
  then have "like_match (q @ ps) (q @ s)" by simp
  then show ?case
    by (cases "c = CHR ''%''") (auto intro: like_percent_skip)
qed

lemma lower_char_percent: "lower_char CHR ''%'' = CHR ''%''"
  by (simp add: lower_char_def)

lemma like_folder_prefix:
  "like_match (lower (''%'' @ folder @ ''%'')) (lower (folder @ rest))"
proof -
  have "like_match (lower folder @ ''%'') (lower folder @ lower rest)"
    by (rule like_self_prefix) (rule like_percent_all)
  then have "like_match (CHR ''%'' # lower folder @ ''%'') (lower folder @ lower rest)"
    by (rule like_percent_skip)
  then show ?thesis
    by (simp add: lower_def lower_char_percent)
qed

subsection \<open>The search by folder\<close>

lemma set_order_by_last_modified_desc [simp]:
  "set (order_by_last_modified_desc rows) = set rows"
  by (simp add: order_by_last_modified_desc_def)

lemma file_path_is_column: "check_columns [''file_path''] = None"
  by (simp add: columns_def)

lemma col_get_file_path: "col_get ''file_path'' r = Some (SText (file_path r))"
  by (simp add: col_get_def)

lemma search_by_folder_subset:
  "set (fst (search_files date_fn [(''file_path'', folder)] d)) \<subseteq> set (files_metadata d)"
  by (auto simp: search_files_def Let_def file_path_is_column split: option.splits)

lemma search_by_folder_finds:
  assumes "r \<in> set (files_metadata d)" and "file_path r = folder @ rest"
  shows "r \<in> set (fst (search_files date_fn [(''file_path'', folder)] d))"
proof (cases "folder = []")
  case True
  with assms show ?thesis by (simp add: search_files_def)
next
  case False
  have "sql_like (sql_lower (SText (file_path r))) (sql_lower (SText (''%'' @ folder @ ''%'')))
        = Some True"
    using like_folder_prefix [of folder rest] assms(2) by (simp add: sql_like_def)
  with False assms(1) show ?thesis
    by (simp add: search_files_def columns_def col_get_file_path)
qed

lemma search_log_no_write:
  "AddedNewFile p \<notin> set (snd (search_files date_fn c d))
   \<and> UpdatedMetadata p \<notin> set (snd (search_files date_fn c d))"
  by (simp add: search_files_def Let_def split: option.splits)

subsection \<open>The existing-file snapshot\<close>

lemma existing_keys:
  "fst ` set (fst (get_existing_files date_fn folder d))
   = file_path ` set (fst (search_files date_fn [(''file_path'', folder)] d))"
  by (simp add: get_existing_files_def snapshot_keys split: prod.splits)

lemma existing_values:
  assumes "(p, v) \<in> set (fst (get_existing_files date_fn folder d))"
  shows "v \<noteq> PDatetime t"
proof -
  obtain rs lg where s: "search_files date_fn [(''file_path'', folder)] d = (rs, lg)"
    by (cases "search_files date_fn [(''file_path'', folder)] d")
  have "set (fst (get_existing_files date_fn folder d))
        \<subseteq> (\<lambda>r. (file_path r, from_sql (last_modified r))) ` set rs"
    using snapshot_entries [of file_path "\<lambda>r. from_sql (last_modified r)" "[]" rs]
    by (simp add: get_existing_files_def s)
  with assms have "(p, v) \<in> (\<lambda>r. (file_path r, from_sql (last_modified r))) ` set rs"
    by (rule rev_subsetD)
  then obtain r :: file_row where "v = from_sql (last_modified r)" by auto
  then show ?thesis by (cases "last_modified r") auto
qed

lemma existing_log:
  "snd (get_existing_files date_fn folder d) = snd (search_files date_fn [(''file_path'', folder)] d)"
  by (simp add: get_existing_files_def split: prod.splits)

subsection \<open>One file of the loop\<close>


lemma datetime_gt_type_error: "\<forall>t. v \<noteq> PDatetime t \<Longrightarrow> datetime_gt m v = Inl TypeError"
  by (cases v) auto

lemma process_file_unstatable:
  "process_file ex (p, None) (d, pr, lg) = (d, pr, lg @ [ProcessingError p OSError])"
  by (simp add: process_file_def)

lemma process_file_tracked:
  assumes "no_datetime ex" and "p \<in> fst ` set ex"
  shows "process_file ex (p, Some (m, c)) (d, pr, lg) = (d, pr, lg @ [ProcessingError p TypeError])"
proof -
  from assms(2) obtain v where v: "map_of ex p = Some v"
    by (cases "map_of ex p") (auto simp: map_of_eq_None_iff)
  then have "(p, v) \<in> set ex" by (rule map_of_SomeD)
  with assms(1) have "\<forall>t. v \<noteq> PDatetime t" by (auto simp: no_datetime_def)
  then have "datetime_gt m v = Inl TypeError" by (rule datetime_gt_type_error)
  with v show ?thesis by (simp add: process_file_def)
qed

lemma extract_keys:
  "map fst (extract_metadata p m c) = [''file_path'', ''file_name'', ''source'', ''file_type'', ''last_modified'', ''created_date'']"
  by (simp add: extract_metadata_def Let_def)

lemma next_id_bound: "i \<in> set ids \<Longrightarrow> i < next_id seq ids"
  by (induction ids) (auto simp: next_id_def)

lemma next_id_fresh: "next_id seq ids \<notin> set ids"
  using next_id_bound [of "next_id seq ids" ids seq] by auto

lemma check_extracted:
  "check_columns [''file_path'', ''file_name'', ''source'', ''file_type'', ''last_modified'',
     ''created_date''] = None"
  by (simp add: columns_def)

lemma set_cols_extracted:
  "\<exists>r. set_cols (extract_metadata p m c) r0 = Inr r \<and> file_path r = p \<and> file_id r = file_id r0"
  by (simp add: extract_metadata_def Let_def col_set_def)

lemma insert_extracted:
  "\<exists>r. file_path r = p \<and> file_id r \<notin> set (map file_id (files_metadata d)) \<and>
     sql_insert (extract_metadata p m c) d
       = Inr (file_id r, d\<lparr>files_metadata := files_metadata d @ [r],
                            files_seq := max (files_seq d) (file_id r)\<rparr>)"
proof -
  obtain r where r: "set_cols (extract_metadata p m c) (default_row d) = Inr r"
      "file_path r = p" "file_id r = file_id (default_row d)"
    using set_cols_extracted [of p m c "default_row d"] by blast
  have fresh: "file_id r \<notin> set (map file_id (files_metadata d))"
    using next_id_fresh [of "files_seq d" "map file_id (files_metadata d)"] r(3)
    by (simp add: default_row_def)
  have ne: "extract_metadata p m c \<noteq> []"
    by (simp add: extract_metadata_def Let_def)
  have "sql_insert (extract_metadata p m c) d
       = Inr (file_id r, d\<lparr>files_metadata := files_metadata d @ [r],
                            files_seq := max (files_seq d) (file_id r)\<rparr>)"
    using fresh r(1) ne
    by (simp add: sql_insert_def extract_keys columns_def)
  with r(2) fresh show ?thesis by blast
qed

lemma process_file_new:
  assumes "p \<notin> fst ` set ex"
  shows "\<exists>r. file_path r = p \<and>
     process_file ex (p, Some (m, c)) (d, pr, lg)
       = (d\<lparr>files_metadata := files_metadata d @ [r],
            files_seq := max (files_seq d) (file_id r)\<rparr>,
          List.insert p pr, lg @ [AddedNewFile p])"
proof -
  from assms have none: "map_of ex p = None"
    by (simp add: map_of_eq_None_iff)
  obtain r where r: "file_path r = p"
      "sql_insert (extract_metadata p m c) d
       = Inr (file_id r, d\<lparr>files_metadata := files_metadata d @ [r],
                            files_seq := max (files_seq d) (file_id r)\<rparr>)"
    using insert_extracted [of p d m c] by blast
  have "process_file ex (p, Some (m, c)) (d, pr, lg)
       = (d\<lparr>files_metadata := files_metadata d @ [r],
            files_seq := max (files_seq d) (file_id r)\<rparr>,
          List.insert p pr, lg @ [AddedNewFile p])"
    by (simp add: process_file_def none add_file_metadata_def r(2))
  with r(1) show ?thesis by blast
qed

lemma process_file_cases:
  assumes "no_datetime ex"
  shows "(\<exists>e. process_file ex (p, st) (d, pr, lg) = (d, pr, lg @ [ProcessingError p e])
            \<and> (st = None \<or> p \<in> fst ` set ex))
       \<or> (\<exists>r. file_path r = p \<and>
            process_file ex (p, st) (d, pr, lg)
              = (d\<lparr>files_metadata := files_metadata d @ [r],
                   files_seq := max (files_seq d) (file_id r)\<rparr>,
                 List.insert p pr, lg @ [AddedNewFile p]))"
proof (cases st)
  case None
  then show ?thesis by (simp add: process_file_unstatable)
next
  case (Some mc)
  obtain m c where mc: "mc = (m, c)" by (cases mc)
  show ?thesis
  proof (cases "p \<in> fst ` set ex")
    case True
    with assms Some mc show ?thesis by (simp add: process_file_tracked)
  next
    case False
    then show ?thesis
      using process_file_new [of p ex m c d pr lg] Some mc by simp
  qed
qed

lemma scan_loop_appends:
  assumes "no_datetime ex"
  shows "\<exists>ins s' pr' lg'.
     scan_loop ex items (d, pr, lg)
       = (d\<lparr>files_metadata := files_metadata d @ ins, files_seq := s'\<rparr>, pr', lg')
     \<and> set pr' \<subseteq> set pr \<union> fst ` set items
     \<and> (\<forall>p st. (p, Some st) \<in> set items \<longrightarrow> p \<in> fst ` set ex \<or> p \<in> file_path ` set ins)"
proof (induction items arbitrary: d pr lg)
  case Nil
  have "d = d\<lparr>files_metadata := files_metadata d @ [], files_seq := files_seq d\<rparr>" by simp
  then have "scan_loop ex [] (d, pr, lg)
      = (d\<lparr>files_metadata := files_metadata d @ [], files_seq := files_seq d\<rparr>, pr, lg)
     \<and> set pr \<subseteq> set pr \<union> fst ` set []
     \<and> (\<forall>p st. (p, Some st) \<in> set [] \<longrightarrow> p \<in> fst ` set ex \<or> p \<in> file_path ` set ([]::file_row list))"
    by simp
  then show ?case
    by (intro exI [of _ "[]"] exI [of _ "files_seq d"] exI [of _ pr] exI [of _ lg])
next
  case (Cons item items)
  obtain p st where item: "item = (p, st)" by (cases item)
  from process_file_cases [OF assms, of p st d pr lg]
  show ?case
  proof
    assume "\<exists>e. process_file ex (p, st) (d, pr, lg) = (d, pr, lg @ [ProcessingError p e])
            \<and> (st = None \<or> p \<in> fst ` set ex)"
    then obtain e where e: "process_file ex (p, st) (d, pr, lg) = (d, pr, lg @ [ProcessingError p e])"
        and tracked: "st = None \<or> p \<in> fst ` set ex" by blast
    from Cons.IH [of d pr "lg @ [ProcessingError p e]"]
    obtain ins s' pr' lg' where ih:
      "scan_loop ex items (d, pr, lg @ [ProcessingError p e])
         = (d\<lparr>files_metadata := files_metadata d @ ins, files_seq := s'\<rparr>, pr', lg')"
      "set pr' \<subseteq> set pr \<union> fst ` set items"
      "\<forall>p st. (p, Some st) \<in> set items \<longrightarrow> p \<in> fst ` set ex \<or> p \<in> file_path ` set ins"
      by blast
    have 1: "scan_loop ex (item # items) (d, pr, lg)
         = (d\<lparr>files_metadata := files_metadata d @ ins, files_seq := s'\<rparr>, pr', lg')"
      using e ih(1) item by simp
    have 2: "set pr' \<subseteq> set pr \<union> fst ` set (item # items)"
      using ih(2) by auto
    have 3: "\<forall>q st'. (q, Some st') \<in> set (item # items)
                \<longrightarrow> q \<in> fst ` set ex \<or> q \<in> file_path ` set ins"
      using ih(3) tracked item by auto
    show ?thesis
      by (rule exI [of _ ins], rule exI [of _ s'], rule exI [of _ pr'], rule exI [of _ lg'])
         (intro conjI 1 2 3)
  next
    assume "\<exists>r. file_path r = p \<and>
            process_file ex (p, st) (d, pr, lg)
              = (d\<lparr>files_metadata := files_metadata d @ [r],
                   files_seq := max (files_seq d) (file_id r)\<rparr>,
                 List.insert p pr, lg @ [AddedNewFile p])"
    then obtain r :: file_row where r: "file_path r = p"
      "process_file ex (p, st) (d, pr, lg)
              = (d\<lparr>files_metadata := files_metadata d @ [r],
                   files_seq := max (files_seq d) (file_id r)\<rparr>,
                 List.insert p pr, lg @ [AddedNewFile p])" by blast
    define d1 where "d1 = d\<lparr>files_metadata := files_metadata d @ [r],
                   files_seq := max (files_seq d) (file_id r)\<rparr>"
    from Cons.IH [of d1 "List.insert p pr" "lg @ [AddedNewFile p]"]
    obtain ins s' pr' lg' where ih:
      "scan_loop ex items (d1, List.insert p pr, lg @ [AddedNewFile p])
         = (d1\<lparr>files_metadata := files_metadata d1 @ ins, files_seq := s'\<rparr>, pr', lg')"
      "set pr' \<subseteq> set (List.insert p pr) \<union> fst ` set items"
      "\<forall>p st. (p, Some st) \<in> set items \<longrightarrow> p \<in> fst ` set ex \<or> p \<in> file_path ` set ins"
      by blast
    have eq: "d1\<lparr>files_metadata := files_metadata d1 @ ins, files_seq := s'\<rparr>
            = d\<lparr>files_metadata := files_metadata d @ (r # ins), files_seq := s'\<rparr>"
      by (simp add: d1_def)
    have 1: "scan_loop ex (item # items) (d, pr, lg)
         = (d\<lparr>files_metadata := files_metadata d @ (r # ins), files_seq := s'\<rparr>, pr', lg')"
      using r(2) ih(1) item eq by (simp add: d1_def)
    have 2: "set pr' \<subseteq> set pr \<union> fst ` set (item # items)"
      using ih(2) item by auto
    have 3: "\<forall>q st'. (q, Some st') \<in> set (item # items)
                \<longrightarrow> q \<in> fst ` set ex \<or> q \<in> file_path ` set (r # ins)"
      using ih(3) r(1) item by auto
    show ?thesis
      by (rule exI [of _ "r # ins"], rule exI [of _ s'], rule exI [of _ pr'], rule exI [of _ lg'])
         (intro conjI 1 2 3)
  qed
qed

lemma scan_loop_noop:
  assumes "no_datetime ex"
    and "\<forall>p st. (p, Some st) \<in> set items \<longrightarrow> p \<in> fst ` set ex"
  shows "scan_loop ex items (d, pr, lg)
     = (d, pr, lg @ map (\<lambda>(p, st). ProcessingError p (if st = None then OSError else TypeError)) items)"
  using assms(2)
proof (induction items arbitrary: lg)
  case Nil
  then show ?case by simp
next
  case (Cons item items)
  obtain p st where item: "item = (p, st)" by (cases item)
  have step: "process_file ex (p, st) (d, pr, lg)
     = (d, pr, lg @ [ProcessingError p (if st = None then OSError else TypeError)])"
  proof (cases st)
    case None
    then show ?thesis by (simp add: process_file_unstatable)
  next
    case (Some mc)
    obtain m c where mc: "mc = (m, c)" by (cases mc)
    have "(p, Some (m, c)) \<in> set (item # items)" using item Some mc by simp
    with Cons.prems have "p \<in> fst ` set ex" by (elim allE impE) assumption
    with assms(1) Some mc show ?thesis by (simp add: process_file_tracked)
  qed
  have "\<forall>p st. (p, Some st) \<in> set items \<longrightarrow> p \<in> fst ` set ex"
    using Cons.prems by auto
  from Cons.IH [OF this] step item show ?case by simp
qed

section \<open>Properties of the search\<close>









lemma check_columns_ok: "set ks \<subseteq> set columns \<Longrightarrow> check_columns ks = None"
  by (induction ks) auto













section \<open>Properties of the scanner\<close>

text \<open>
  C6.  When the root path does not exist, the scan returns False at once: the database is
  the one it was given and the only thing logged is the missing folder, so neither the
  search nor any write was run.
\<close>

theorem scan_missing_root:
  "fs folder = Missing \<Longrightarrow> scan_folder date_fn fs d folder = (False, d, [FolderNotFound folder])"
  by (simp add: scan_folder_def)

theorem scan_missing_root_witness:
  "one_file_fs None ''/nowhere'' = Missing
   \<and> scan_folder id (one_file_fs None) tracked_db ''/nowhere''
       = (False, tracked_db, [FolderNotFound ''/nowhere''])"
proof -
  have h: "one_file_fs None ''/nowhere'' = Missing"
    by (simp add: one_file_fs_def)
  show ?thesis
    using h scan_missing_root [of "one_file_fs None" "''/nowhere''" id tracked_db] by simp
qed

text \<open>
  C2, at the input where the code departs from it.  The catalog tracks \<^verbatim>\<open>/d/a.pdf\<close>
  with the modification time of 2024; on disk the file now has a strictly newer one.
  The stored value comes back from sqlite3 as a string, the comparison with the
  \<^verbatim>\<open>datetime\<close> raises \<^verbatim>\<open>TypeError\<close>, and the scan logs the error and leaves the row
  as it was: no update is issued.
\<close>

theorem scan_newer_file_not_updated:
  "scan_folder date_fn (one_file_fs (Some (new_time, old_time))) tracked_db ''/d''
     = (True, tracked_db,
        [DbDebug ''Executing search query'', DbInfo ''Search returned results'',
         ProcessingError ''/d/a.pdf'' TypeError, FileNoLongerExists ''/d/a.pdf'',
         ScanCompleted 0 1])"
  by code_simp

text \<open>
  The update the scan would issue is keyed by \<^verbatim>\<open>file_id\<close> and is given the path: it
  selects no row, so it would change nothing either.
\<close>

lemma scan_update_call_matches_no_row:
  "update_file_metadata (PStr ''/d/a.pdf'') (extract_metadata ''/d/a.pdf'' new_time old_time)
     tracked_db = (True, tracked_db, [])"
  by code_simp

text \<open>
  C3, at the input where the code departs from it.  The file \<^verbatim>\<open>/d/a.pdf\<close> is tracked
  and is listed by the directory walk, but \<^verbatim>\<open>os.stat\<close> fails on it.  The path is not
  added to the processed set and is reported as no longer existing.
\<close>

theorem scan_unstatable_file_reported_removed:
  "scan_folder date_fn (one_file_fs None) tracked_db ''/d''
     = (True, tracked_db,
        [DbDebug ''Executing search query'', DbInfo ''Search returned results'',
         ProcessingError ''/d/a.pdf'' OSError, FileNoLongerExists ''/d/a.pdf'',
         ScanCompleted 0 1])
   \<and> ''/d/a.pdf'' \<in> fst ` set (discovered ''/d'' (one_file_fs None ''/d''))"
  by code_simp

lemma existing_no_datetime: "no_datetime (fst (get_existing_files date_fn folder d))"
  unfolding no_datetime_def using existing_values by blast

lemma removed_files_member:
  "p \<in> fst ` set ex \<Longrightarrow> p \<notin> set pr \<Longrightarrow> p \<in> set (removed_files ex pr)"
  by (auto simp: removed_files_def)

text \<open>
  C4.  A row that the scan finds in its snapshot (it was tracked under the folder) and whose
  path the directory walk does not list: the scan returns True, logs the path as no longer
  existing, and the row is still in the catalog.  No row at all is deleted or changed: the
  rows the catalog had are its first rows afterwards, as they were.
\<close>

theorem scan_keeps_missing_file:
  assumes root: "fs folder \<noteq> Missing"
    and tracked: "r \<in> set (fst (search_files date_fn [(''file_path'', folder)] d))"
    and absent: "file_path r \<notin> fst ` set (discovered folder (fs folder))"
  shows "fst (scan_folder date_fn fs d folder) = True
     \<and> FileNoLongerExists (file_path r) \<in> set (snd (snd (scan_folder date_fn fs d folder)))
     \<and> r \<in> set (files_metadata (fst (snd (scan_folder date_fn fs d folder))))
     \<and> take (length (files_metadata d)) (files_metadata (fst (snd (scan_folder date_fn fs d folder))))
         = files_metadata d"
proof -
  obtain ex lg0 where ex: "get_existing_files date_fn folder d = (ex, lg0)"
    by (cases "get_existing_files date_fn folder d")
  have nd: "no_datetime ex"
    using existing_no_datetime [of date_fn folder d] ex by simp
  have key: "file_path r \<in> fst ` set ex"
    using existing_keys [of date_fn folder d] tracked ex by auto
  have rin: "r \<in> set (files_metadata d)"
    using tracked search_by_folder_subset by blast
  obtain ins s' pr' lg' where loop:
    "scan_loop ex (discovered folder (fs folder)) (d, [], lg0)
       = (d\<lparr>files_metadata := files_metadata d @ ins, files_seq := s'\<rparr>, pr', lg')"
    "set pr' \<subseteq> set [] \<union> fst ` set (discovered folder (fs folder))"
    using scan_loop_appends [OF nd, of "discovered folder (fs folder)" d "[]" lg0] by blast
  have "file_path r \<notin> set pr'"
    using loop(2) absent by auto
  with key have rem: "file_path r \<in> set (removed_files ex pr')"
    by (rule removed_files_member)
  have res: "scan_folder date_fn fs d folder
      = (True, d\<lparr>files_metadata := files_metadata d @ ins, files_seq := s'\<rparr>,
         lg' @ map FileNoLongerExists (removed_files ex pr')
             @ [ScanCompleted (length pr') (length (removed_files ex pr'))])"
    using root ex loop(1) by (simp add: scan_folder_def Let_def)
  show ?thesis
    using rem rin by (simp add: res)
qed

theorem scan_keeps_missing_file_witness:
  "empty_dir_fs ''/d'' \<noteq> Missing
   \<and> tracked_row \<in> set (fst (search_files id [(''file_path'', ''/d'')] tracked_db))
   \<and> file_path tracked_row \<notin> fst ` set (discovered ''/d'' (empty_dir_fs ''/d''))
   \<and> fst (scan_folder id empty_dir_fs tracked_db ''/d'') = True
   \<and> FileNoLongerExists ''/d/a.pdf'' \<in> set (snd (snd (scan_folder id empty_dir_fs tracked_db ''/d'')))
   \<and> tracked_row \<in> set (files_metadata (fst (snd (scan_folder id empty_dir_fs tracked_db ''/d''))))"
proof -
  have a: "empty_dir_fs ''/d'' \<noteq> Missing"
    by (simp add: empty_dir_fs_def)
  have b: "tracked_row \<in> set (fst (search_files id [(''file_path'', ''/d'')] tracked_db))"
    by code_simp
  have c: "file_path tracked_row \<notin> fst ` set (discovered ''/d'' (empty_dir_fs ''/d''))"
    by (simp add: discovered_def empty_dir_fs_def)
  have p: "file_path tracked_row = ''/d/a.pdf''"
    by (simp add: tracked_row_def)
  show ?thesis
    using a b c scan_keeps_missing_file [of empty_dir_fs "''/d''" tracked_row id tracked_db]
    by (simp add: p)
qed

subsection \<open>Discovered paths lie under the folder\<close>

lemma path_join_prefix: "relative_name n \<Longrightarrow> \<exists>rest. path_join a n = a @ rest"
  by (cases n) (auto simp: path_join_def relative_name_def)

lemma walk_roots:
  "names_ok t \<Longrightarrow> (root, files) \<in> set (walk base t) \<Longrightarrow> \<exists>rest. root = base @ rest"
  "dirs_ok ds \<Longrightarrow> (root, files) \<in> set (walk_dirs base ds) \<Longrightarrow> \<exists>rest. root = base @ rest"
proof (induction base t and base ds rule: walk_walk_dirs.induct)
  case (1 root' files' dirs)
  then show ?case by auto
next
  case (2 root')
  then show ?case by simp
next
  case (3 root' name t rest)
  from "3.prems" have rel: "relative_name name" and okt: "names_ok t" and okr: "dirs_ok rest"
    by simp_all
  from "3.prems"(2) have "(root, files) \<in> set (walk (path_join root' name) t)
      \<or> (root, files) \<in> set (walk_dirs root' rest)" by simp
  then show ?case
  proof
    assume "(root, files) \<in> set (walk (path_join root' name) t)"
    with "3.IH"(1) okt obtain r1 where "root = path_join root' name @ r1" by blast
    moreover from path_join_prefix [OF rel] obtain r2 where "path_join root' name = root' @ r2"
      by blast
    ultimately show ?thesis by simp
  next
    assume "(root, files) \<in> set (walk_dirs root' rest)"
    with "3.IH"(2) okr show ?thesis by blast
  qed
qed

lemma walk_files_relative:
  "names_ok t \<Longrightarrow> (root, files) \<in> set (walk base t) \<Longrightarrow> (n, st) \<in> set files \<Longrightarrow> relative_name n"
  "dirs_ok ds \<Longrightarrow> (root, files) \<in> set (walk_dirs base ds) \<Longrightarrow> (n, st) \<in> set files \<Longrightarrow> relative_name n"
proof (induction base t and base ds rule: walk_walk_dirs.induct)
  case (1 root' files' dirs)
  then show ?case by (auto simp: list_all_iff)
next
  case (2 root')
  then show ?case by simp
next
  case (3 root' name t rest)
  then show ?case by auto
qed

lemma discovered_under_folder:
  assumes "node_ok node" and "(p, st) \<in> set (discovered folder node)"
  shows "\<exists>rest. p = folder @ rest"
proof (cases node)
  case Missing
  with assms show ?thesis by (simp add: discovered_def)
next
  case RegularFile
  with assms show ?thesis by (simp add: discovered_def)
next
  case (Directory t)
  with assms(2) obtain root files n where w: "(root, files) \<in> set (walk folder t)"
      and f: "(n, st) \<in> set files" and p: "p = path_join root n"
    by (auto simp: discovered_def)
  from assms(1) Directory have ok: "names_ok t" by simp
  from walk_roots(1) [OF ok w] obtain r1 where "root = folder @ r1" by blast
  moreover from walk_files_relative(1) [OF ok w f] have "relative_name n" .
  then obtain r2 where "path_join root n = root @ r2" using path_join_prefix by blast
  ultimately show ?thesis using p by simp
qed

lemma rescan_second_pass:
  assumes ok: "node_ok (fs folder)" and root: "fs folder \<noteq> Missing"
    and cover: "\<forall>p st. (p, Some st) \<in> set (discovered folder (fs folder))
                 \<longrightarrow> p \<in> file_path ` set (files_metadata d1)"
  shows "\<exists>lg. scan_folder date_fn fs d1 folder = (True, d1, lg)
            \<and> AddedNewFile q \<notin> set lg \<and> UpdatedMetadata q \<notin> set lg"
proof -
  obtain ex lg0 where ex: "get_existing_files date_fn folder d1 = (ex, lg0)"
    by (cases "get_existing_files date_fn folder d1")
  have nd: "no_datetime ex"
    using existing_no_datetime [of date_fn folder d1] ex by simp
  have keys: "fst ` set ex = file_path ` set (fst (search_files date_fn [(''file_path'', folder)] d1))"
    using existing_keys [of date_fn folder d1] ex by simp
  have lg0: "lg0 = snd (search_files date_fn [(''file_path'', folder)] d1)"
    using existing_log [of date_fn folder d1] ex by simp
  have tracked: "\<forall>p st. (p, Some st) \<in> set (discovered folder (fs folder)) \<longrightarrow> p \<in> fst ` set ex"
  proof (intro allI impI)
    fix p st
    assume item: "(p, Some st) \<in> set (discovered folder (fs folder))"
    with cover have "p \<in> file_path ` set (files_metadata d1)" by blast
    then obtain r :: file_row where r: "r \<in> set (files_metadata d1)" "file_path r = p"
      by auto
    from discovered_under_folder [OF ok item] obtain rest where "p = folder @ rest" by blast
    with r have "r \<in> set (fst (search_files date_fn [(''file_path'', folder)] d1))"
      by (simp add: search_by_folder_finds)
    with r(2) show "p \<in> fst ` set ex" unfolding keys by (rule_tac image_eqI [of _ _ r]) simp_all
  qed
  define errs where "errs = map (\<lambda>(p, st). ProcessingError p (if st = None then OSError else TypeError))
      (discovered folder (fs folder))"
  have loop: "scan_loop ex (discovered folder (fs folder)) (d1, [], lg0) = (d1, [], lg0 @ errs)"
    unfolding errs_def by (rule scan_loop_noop [OF nd tracked])
  define lg where "lg = (lg0 @ errs) @ map FileNoLongerExists (removed_files ex [])
      @ [ScanCompleted (length ([]::string list)) (length (removed_files ex []))]"
  have res: "scan_folder date_fn fs d1 folder = (True, d1, lg)"
    using root ex loop by (simp add: scan_folder_def Let_def lg_def)
  have "AddedNewFile q \<notin> set lg0" "UpdatedMetadata q \<notin> set lg0"
    using search_log_no_write [of q date_fn "[(''file_path'', folder)]" d1] lg0 by simp_all
  moreover have "AddedNewFile q \<notin> set errs" "UpdatedMetadata q \<notin> set errs"
    by (auto simp: errs_def)
  ultimately have "AddedNewFile q \<notin> set lg \<and> UpdatedMetadata q \<notin> set lg"
    by (auto simp: lg_def)
  with res show ?thesis by blast
qed

text \<open>
  C1.  Scan a folder, then scan it again with the disk unchanged (the same \<open>fs\<close>): the
  second scan returns the catalog the first one left, and its log has neither an insert
  nor an update, for any path \<open>q\<close>.
\<close>

theorem rescan_idempotent:
  assumes ok: "node_ok (fs folder)"
  shows "fst (snd (scan_folder date_fn fs (fst (snd (scan_folder date_fn fs d folder))) folder))
           = fst (snd (scan_folder date_fn fs d folder))
     \<and> AddedNewFile q \<notin> set (snd (snd (scan_folder date_fn fs
                                  (fst (snd (scan_folder date_fn fs d folder))) folder)))
     \<and> UpdatedMetadata q \<notin> set (snd (snd (scan_folder date_fn fs
                                  (fst (snd (scan_folder date_fn fs d folder))) folder)))"
proof (cases "fs folder = Missing")
  case True
  then show ?thesis by (simp add: scan_folder_def)
next
  case False
  obtain ex lg0 where ex: "get_existing_files date_fn folder d = (ex, lg0)"
    by (cases "get_existing_files date_fn folder d")
  have nd: "no_datetime ex"
    using existing_no_datetime [of date_fn folder d] ex by simp
  have keys: "fst ` set ex \<subseteq> file_path ` set (files_metadata d)"
    using existing_keys [of date_fn folder d] ex search_by_folder_subset [of date_fn folder d]
    by auto
  obtain ins s' pr' lg' where loop:
    "scan_loop ex (discovered folder (fs folder)) (d, [], lg0)
       = (d\<lparr>files_metadata := files_metadata d @ ins, files_seq := s'\<rparr>, pr', lg')"
    "\<forall>p st. (p, Some st) \<in> set (discovered folder (fs folder))
        \<longrightarrow> p \<in> fst ` set ex \<or> p \<in> file_path ` set ins"
    using scan_loop_appends [OF nd, of "discovered folder (fs folder)" d "[]" lg0] by blast
  define d1 where "d1 = d\<lparr>files_metadata := files_metadata d @ ins, files_seq := s'\<rparr>"
  have first: "fst (snd (scan_folder date_fn fs d folder)) = d1"
    using False ex loop(1) by (simp add: scan_folder_def Let_def d1_def)
  have cover: "\<forall>p st. (p, Some st) \<in> set (discovered folder (fs folder))
                 \<longrightarrow> p \<in> file_path ` set (files_metadata d1)"
  proof (intro allI impI)
    fix p st
    assume "(p, Some st) \<in> set (discovered folder (fs folder))"
    with loop(2) have "p \<in> fst ` set ex \<or> p \<in> file_path ` set ins" by blast
    with keys have "p \<in> file_path ` set (files_metadata d) \<or> p \<in> file_path ` set ins"
      by blast
    then show "p \<in> file_path ` set (files_metadata d1)"
      by (auto simp: d1_def)
  qed
  from rescan_second_pass [where fs = fs and folder = folder and ?d1.0 = d1
      and date_fn = date_fn and q = q, OF ok False cover]
  obtain lg where "scan_folder date_fn fs d1 folder = (True, d1, lg)"
    "AddedNewFile q \<notin> set lg" "UpdatedMetadata q \<notin> set lg" by blast
  then show ?thesis by (simp add: first)
qed

theorem rescan_idempotent_witness:
  "node_ok (one_file_fs (Some (old_time, old_time)) ''/d'')
   \<and> fst (snd (scan_folder id (one_file_fs (Some (old_time, old_time))) empty_db ''/d'')) = tracked_db
   \<and> fst (snd (scan_folder id (one_file_fs (Some (old_time, old_time))) tracked_db ''/d'')) = tracked_db
   \<and> AddedNewFile ''/d/a.pdf'' \<notin> set (snd (snd (scan_folder id (one_file_fs (Some (old_time, old_time))) tracked_db ''/d'')))
   \<and> UpdatedMetadata ''/d/a.pdf'' \<notin> set (snd (snd (scan_folder id (one_file_fs (Some (old_time, old_time))) tracked_db ''/d'')))"
proof -
  have ok: "node_ok (one_file_fs (Some (old_time, old_time)) ''/d'')"
    by (simp add: one_file_fs_def relative_name_def)
  have first: "fst (snd (scan_folder id (one_file_fs (Some (old_time, old_time))) empty_db ''/d'')) = tracked_db"
    by code_simp
  show ?thesis
    using ok first
      rescan_idempotent [of "one_file_fs (Some (old_time, old_time))" "''/d''" id empty_db
                            "''/d/a.pdf''"]
    by simp
qed

section \<open>Properties of revision parsing\<close>






text \<open>The patterns are applied to the uppercased name, so the case of the name is irrelevant.\<close>

lemma parse_revision_lower_case: "parse_revision ''drawing rev b.pdf'' = Some ''B''"
  by code_simp


end
